theory Spec2Isabelle
  imports Main "HOL-Library.Word"
begin

section \<open>Shared data\<close>

text \<open>
  A shallow embedding of the Pulsar connector: the connection manager
  (\<open>PulsarConnManager.Connect\<close>), the publish activity's factory (\<open>New\<close>) and the
  subscriber trigger (\<open>Initialize\<close>, \<open>getMaxMessageCount\<close>, \<open>Stop\<close>, \<open>Pause\<close>,
  \<open>consume\<close>, \<open>handleMessage\<close>).

  Go's \<open>error\<close> values are strings here; a nil error is \<open>None\<close>. A value of the empty
  interface is an \<open>iface\<close>: a \<open>bool\<close>, a \<open>string\<close>, or any other dynamic value (numbers,
  maps, slices), which the code never inspects and which is left abstract as \<open>'j\<close>. A nil
  interface is \<open>None\<close>. A \<open>map[string]interface{}\<close> is a partial map: looking up a missing
  key gives nil, as in Go.
\<close>

type_synonym error = string

datatype 'j iface = IBool bool | IString string | IObj 'j

type_synonym 'j settings = "string \<rightharpoonup> 'j iface"

text \<open>
  A call either returns an error value or panics (a failed single-value type assertion);
  both end the function, and they are kept apart.
\<close>

datatype failure = Error error | Panic string


section \<open>The connection manager\<close>

text \<open>
  \<open>PulsarConnManager\<close>: the client (nil until created), the options it is created from
  and the connected flag. The \<open>Lock\<close> field is the mutex \<open>Connect\<close> holds from its first
  statement to its return; taking and releasing it are events of the call.
  \<open>pulsar.NewClient\<close> belongs to the client library and is a parameter: it returns a
  client and an error.
\<close>

record ('c, 'o) PulsarConnManager =
  Client :: "'c option"
  ClientOpts :: 'o
  Connected :: bool

datatype 'o conn_event = EvLock | EvNewClient 'o | EvUnlock

definition IsConnected :: "('c, 'o) PulsarConnManager \<Rightarrow> bool" where
  "IsConnected p = Connected p"

text \<open>
  \<open>Connect\<close> returns its error, the manager as the call leaves it, and what the call
  did, in order.
\<close>

definition Connect ::
  "('o \<Rightarrow> 'c option \<times> error option) \<Rightarrow> ('c, 'o) PulsarConnManager \<Rightarrow>
     error option \<times> ('c, 'o) PulsarConnManager \<times> 'o conn_event list" where
  "Connect NewClient p =
     (if \<not> IsConnected p then
        (case NewClient (ClientOpts p) of
           (c, err) \<Rightarrow>
             (let p1 = p\<lparr>Client := c\<rparr> in
              if err \<noteq> None
              then (err, p1, [EvLock, EvNewClient (ClientOpts p), EvUnlock])
              else (None, p1\<lparr>Connected := True\<rparr>,
                    [EvLock, EvNewClient (ClientOpts p), EvUnlock])))
      else (None, p\<lparr>Connected := True\<rparr>, [EvLock, EvUnlock]))"

definition client_creations :: "'o conn_event list \<Rightarrow> nat" where
  "client_creations evs = length (filter (\<lambda>e. case e of EvNewClient _ \<Rightarrow> True | _ \<Rightarrow> False) evs)"


section \<open>The publish activity's factory\<close>

text \<open>
  \<open>pulsar.ProducerOptions\<close>, with the fields the activity sets. The zero value of
  \<open>CompressionType\<close> is \<open>NoCompression\<close>, which is what a composite literal leaves in a
  field it does not name.
\<close>

datatype CompressionType = NoCompression | LZ4 | ZLib | ZSTD

record ProducerOptions =
  po_Topic :: string
  po_CompressionType :: CompressionType
  po_Name :: string

text \<open>
  The activity; \<open>producer\<close> is nil until the first \<open>Eval\<close>. The settings struct of the
  activity is read for its \<open>Connection\<close> field only.
\<close>

record ('m, 'cm, 'p) Activity =
  producer :: "'p option"
  producerOpts :: ProducerOptions
  connMgr :: 'cm
  pulsarConn :: 'm

record 'v publish_Settings =
  ps_Connection :: 'v

text \<open>
  \<open>New\<close>. The host runtime's \<open>metadata.MapToStruct\<close> and \<open>coerce.ToConnection\<close> are
  parameters, each returning an error or a value; \<open>GetConnection\<close> gives the connection
  manager when the type assertion to \<open>PulsarConnManager\<close> holds and \<open>None\<close> when it
  panics. The type assertions \<open>.(string)\<close> on the topic and on the compression type
  panic on a value that is not a string.
\<close>

definition New ::
  "('j settings \<Rightarrow> error + 'v publish_Settings) \<Rightarrow> ('v \<Rightarrow> error + 'm) \<Rightarrow>
   ('m \<Rightarrow> 'cm option) \<Rightarrow> 'j settings \<Rightarrow> failure + ('m, 'cm, 'p) Activity" where
  "New MapToStruct ToConnection GetConnection ctx_Settings =
     (case MapToStruct ctx_Settings of
        Inl err \<Rightarrow> Inl (Error err)
      | Inr s \<Rightarrow>
     (case ToConnection (ps_Connection s) of
        Inl err \<Rightarrow> Inl (Error err)
      | Inr pulsarConn' \<Rightarrow>
     (case ctx_Settings ''topic'' of
        None \<Rightarrow> Inl (Error ''no topic specified'')
      | Some (IBool _) \<Rightarrow> Inl (Panic ''interface conversion: topic is not a string'')
      | Some (IObj _) \<Rightarrow> Inl (Panic ''interface conversion: topic is not a string'')
      | Some (IString topic) \<Rightarrow>
     (let producerOptions =
            \<lparr>po_Topic = topic, po_CompressionType = NoCompression, po_Name = ''''\<rparr> in
      case (case ctx_Settings ''compressionType'' of
              None \<Rightarrow> Inr producerOptions
            | Some (IBool _) \<Rightarrow>
                Inl (Panic ''interface conversion: compressionType is not a string'')
            | Some (IObj _) \<Rightarrow>
                Inl (Panic ''interface conversion: compressionType is not a string'')
            | Some (IString ct) \<Rightarrow>
                Inr (if ct = ''LZ4'' then producerOptions\<lparr>po_CompressionType := LZ4\<rparr>
                     else if ct = ''ZLIB'' then producerOptions\<lparr>po_CompressionType := ZLib\<rparr>
                     else if ct = ''ZSTD'' then producerOptions\<lparr>po_CompressionType := ZSTD\<rparr>
                     else producerOptions\<lparr>po_CompressionType := NoCompression\<rparr>)) of
        Inl f \<Rightarrow> Inl f
      | Inr producerOptions' \<Rightarrow>
     (case GetConnection pulsarConn' of
        None \<Rightarrow> Inl (Panic ''interface conversion: not a PulsarConnManager'')
      | Some connMgr' \<Rightarrow>
          Inr \<lparr>producer = None, producerOpts = producerOptions',
               connMgr = connMgr', pulsarConn = pulsarConn'\<rparr>)))))"


section \<open>The subscriber trigger: initialisation\<close>

text \<open>
  What the trigger reads from the engine: the runner type, the engine's name for the
  pooled runner type, the number of runner workers, the application's name and version.
  They belong to the host runtime and are parameters. Go's \<open>int\<close> is modelled as \<open>int\<close>:
  the counters below move by one per message and never come near 64 bits.
\<close>

record engine =
  GetRunnerType :: string
  ValueRunnerTypePooled :: string
  GetRunnerWorkers :: int
  GetAppName :: string
  GetAppVersion :: string

definition getMaxMessageCount :: "engine \<Rightarrow> int" where
  "getMaxMessageCount eng =
     (if GetRunnerType eng = ValueRunnerTypePooled eng then GetRunnerWorkers eng
      else 200)"

text \<open>The handler settings \<open>Initialize\<close> reads, and the consumer options it builds.\<close>

record HandlerSettings =
  hs_Topic :: string
  hs_Subscription :: string
  hs_SubscriptionType :: string
  hs_DLQTopic :: string
  hs_DLQMaxDeliveries :: int
  hs_InitialPosition :: string
  hs_NackRedeliveryDelay :: int
  hs_ProcessingMode :: string

datatype SubscriptionType = Exclusive | Shared | Failover | KeyShared

datatype SubscriptionInitialPosition = SubscriptionPositionLatest | SubscriptionPositionEarliest

record DLQPolicy =
  MaxDeliveries :: "32 word"
  DeadLetterTopic :: string

text \<open>
  A channel is its capacity and what it buffers; \<open>make(chan T)\<close> has capacity 0.
\<close>

record 'a chan =
  cap :: nat
  buf :: "'a list"

definition make_chan :: "nat \<Rightarrow> 'a chan" where
  "make_chan n = \<lparr>cap = n, buf = []\<rparr>"

text \<open>
  \<open>NackRedeliveryDelay\<close> is a \<open>time.Duration\<close>: 64-bit nanoseconds, and the product
  with \<open>time.Second\<close> wraps.
\<close>

record ConsumerOptions =
  co_Topic :: string
  co_SubscriptionName :: string
  co_Name :: string
  co_NackRedeliveryDelay :: "64 word"
  co_Type :: SubscriptionType
  co_DLQ :: "DLQPolicy option"
  co_SubscriptionInitialPosition :: SubscriptionInitialPosition

definition ProcessingModeAsync :: string where
  "ProcessingModeAsync = ''Async''"

text \<open>
  The \<open>Handler\<close> struct. \<open>hname\<close> is the name of the host's handler (\<open>handler.Name()\<close>),
  \<open>done_ch\<close> the field \<open>done\<close>, \<open>wg\<close> the counter of the wait group. The message channel
  of the consumer options is the consumer's \<open>Chan()\<close>, which the consume loop reads.
\<close>

record 'c Handler =
  hname :: string
  consumer :: "'c option"
  done_ch :: "bool chan"
  asyncMode :: bool
  maxMsgCount :: int
  currentMsgCount :: int
  wg :: int
  consumerOpts :: ConsumerOptions

text \<open>\<open>fmt.Sprintf("%d", n)\<close>: the decimal digits, with a minus sign below zero.\<close>

fun digits :: "nat \<Rightarrow> string" where
  "digits n =
     (if n < 10 then [char_of (48 + n)]
      else digits (n div 10) @ [char_of (48 + n mod 10)])"

definition Sprintf_d :: "int \<Rightarrow> string" where
  "Sprintf_d n = (if n < 0 then CHR ''-'' # digits (nat (- n)) else digits (nat n))"

text \<open>
  One handler of the host: its name and its settings. \<open>os.Hostname\<close> gives a name or
  fails (\<open>None\<close>); \<open>UnixMilli\<close> is the clock read in that case.
\<close>

record 'j host_handler =
  hh_Name :: string
  hh_Settings :: "'j settings"

record init_env =
  ie_engine :: engine
  ie_Hostname :: "string option"
  ie_UnixMilli :: int

definition new_Handler ::
  "init_env \<Rightarrow> 'j host_handler \<Rightarrow> HandlerSettings \<Rightarrow> 'c Handler" where
  "new_Handler env handler s =
     (let hostName = (case ie_Hostname env of
                        Some n \<Rightarrow> n
                      | None \<Rightarrow> Sprintf_d (ie_UnixMilli env));
          consumeroptions0 =
            \<lparr>co_Topic = hs_Topic s,
             co_SubscriptionName = hs_Subscription s,
             co_Name = GetAppName (ie_engine env) @ ''-'' @ GetAppVersion (ie_engine env)
                       @ ''-'' @ hh_Name handler @ ''-'' @ hostName,
             co_NackRedeliveryDelay = 0,
             co_Type = Exclusive,
             co_DLQ = None,
             co_SubscriptionInitialPosition = SubscriptionPositionLatest\<rparr>;
          consumeroptions1 =
            (if hs_NackRedeliveryDelay s \<noteq> 0
             then consumeroptions0\<lparr>co_NackRedeliveryDelay :=
                    word_of_int (hs_NackRedeliveryDelay s) * 1000000000\<rparr>
             else consumeroptions0);
          consumeroptions2 =
            consumeroptions1\<lparr>co_Type :=
              (if hs_SubscriptionType s = ''Exclusive'' then Exclusive
               else if hs_SubscriptionType s = ''Shared'' then Shared
               else if hs_SubscriptionType s = ''Failover'' then Failover
               else if hs_SubscriptionType s = ''KeyShared'' then KeyShared
               else Exclusive)\<rparr>;
          consumeroptions3 =
            (if hs_DLQTopic s \<noteq> ''''
             then consumeroptions2\<lparr>co_DLQ :=
                    Some \<lparr>MaxDeliveries = word_of_int (hs_DLQMaxDeliveries s),
                          DeadLetterTopic = hs_DLQTopic s\<rparr>\<rparr>
             else consumeroptions2);
          consumeroptions4 =
            (if hs_InitialPosition s = ''Latest''
             then consumeroptions3\<lparr>co_SubscriptionInitialPosition := SubscriptionPositionLatest\<rparr>
             else consumeroptions3\<lparr>co_SubscriptionInitialPosition := SubscriptionPositionEarliest\<rparr>)
      in \<lparr>hname = hh_Name handler,
          consumer = None,
          done_ch = make_chan 0,
          asyncMode = (hs_ProcessingMode s = ProcessingModeAsync),
          maxMsgCount = getMaxMessageCount (ie_engine env),
          currentMsgCount = 0,
          wg = 0,
          consumerOpts = consumeroptions4\<rparr>)"

text \<open>
  \<open>Initialize\<close>: the loop over the host's handlers appends one \<open>Handler\<close> per host
  handler to the trigger's handlers, and returns at the first settings error, leaving
  what it has appended. \<open>MapToStruct\<close> is the host runtime's and a parameter.
\<close>

fun Initialize ::
  "('j settings \<Rightarrow> error + HandlerSettings) \<Rightarrow> init_env \<Rightarrow> 'c Handler list \<Rightarrow>
   'j host_handler list \<Rightarrow> error option \<times> 'c Handler list" where
  "Initialize MapToStruct env handlers [] = (None, handlers)"
| "Initialize MapToStruct env handlers (handler # rest) =
     (case MapToStruct (hh_Settings handler) of
        Inl err \<Rightarrow> (Some err, handlers)
      | Inr s \<Rightarrow>
          Initialize MapToStruct env (handlers @ [new_Handler env handler s]) rest)"


section \<open>The subscriber trigger: one message\<close>

text \<open>
  A delivered message: payload bytes, properties, topic, redelivery count (a
  \<open>uint32\<close>) and the serialised message id (\<open>None\<close> when \<open>ID()\<close> is nil). The output
  record handed to the host's handler, and the context of the call: the tracing context
  appended to it and the event id bound to it, if any.
\<close>

record Message =
  msg_Payload :: string
  msg_Properties :: "(string \<times> string) list"
  msg_Topic :: string
  msg_RedeliveryCount :: "32 word"
  msg_ID :: "8 word list option"

record 'j Output =
  out_Payload :: "'j iface option"
  out_Properties :: "(string \<times> string) list"
  out_Topic :: string
  out_RedeliveryCount :: int
  out_Msgid :: string

record 'tc Context =
  ctx_tracing :: "'tc option"
  ctx_eventId :: "string option"

definition Background :: "'tc Context" where
  "Background = \<lparr>ctx_tracing = None, ctx_eventId = None\<rparr>"

definition AppendTracingContext :: "'tc Context \<Rightarrow> 'tc \<Rightarrow> 'tc Context" where
  "AppendTracingContext ctx tc = ctx\<lparr>ctx_tracing := Some tc\<rparr>"

definition NewContextWithEventId :: "'tc Context \<Rightarrow> string \<Rightarrow> 'tc Context" where
  "NewContextWithEventId ctx eid = ctx\<lparr>ctx_eventId := Some eid\<rparr>"

text \<open>\<open>fmt.Sprintf("%x", bytes)\<close>: two lower-case hexadecimal digits per byte.\<close>

definition hex_digit :: "nat \<Rightarrow> char" where
  "hex_digit n = ''0123456789abcdef'' ! (n mod 16)"

definition Sprintf_x :: "8 word list \<Rightarrow> string" where
  "Sprintf_x bs = concat (map (\<lambda>b. [hex_digit (unat b div 16), hex_digit (unat b mod 16)]) bs)"

text \<open>
  What \<open>handleMessage\<close> reads from outside the trigger: the handler's \<open>format\<close>
  setting, \<open>json.Unmarshal\<close> (an error, or the decoded value, nil for \<open>null\<close>), whether
  tracing is enabled and what the tracer extracts from the properties, and the host's
  handler, which returns result attributes and an error.
\<close>

record ('j, 'tc) runtime =
  rt_format :: "'j iface option"
  rt_Unmarshal :: "string \<Rightarrow> error + 'j iface option"
  rt_trace_Enabled :: bool
  rt_Extract :: "(string \<times> string) list \<Rightarrow> 'tc option"
  rt_Handle :: "'tc Context \<Rightarrow> 'j Output \<Rightarrow> 'j settings \<times> error option"

text \<open>
  What a call of \<open>handleMessage\<close> does to the outside: it invokes the host's handler,
  acknowledges the message, or negatively acknowledges it.
\<close>

datatype ('j, 'tc) event =
    EvHandle "'tc Context" "'j Output"
  | EvAck Message
  | EvNack Message

text \<open>
  \<open>handleMessage\<close>, without its deferred function (which is part of the worker's
  steps below). The result is a panic (the type assertion of the \<open>format\<close> setting to
  \<open>string\<close> fails), or the events of the call in order. The reserved attribute is
  spelt with a leading space in the source.
\<close>

definition handleMessage ::
  "('j, 'tc) runtime \<Rightarrow> Message \<Rightarrow> string + ('j, 'tc) event list" where
  "handleMessage rt msg =
     (case (case rt_format rt of
              None \<Rightarrow> Inr False
            | Some (IString f) \<Rightarrow> Inr (f = ''JSON'')
            | Some (IBool _) \<Rightarrow> Inl ''interface conversion: format is not a string''
            | Some (IObj _) \<Rightarrow> Inl ''interface conversion: format is not a string'') of
        Inl p \<Rightarrow> Inl p
      | Inr is_json \<Rightarrow>
     (case (if is_json
            then (case rt_Unmarshal rt (msg_Payload msg) of
                    Inl err \<Rightarrow> None
                  | Inr obj \<Rightarrow> Some obj)
            else Some (Some (IString (msg_Payload msg)))) of
        None \<Rightarrow> Inr [EvNack msg]
      | Some payload \<Rightarrow>
     (let ctx0 = Background;
          ctx1 = (if rt_trace_Enabled rt
                  then (case rt_Extract rt (msg_Properties msg) of
                          Some tc \<Rightarrow> AppendTracingContext ctx0 tc
                        | None \<Rightarrow> ctx0)
                  else ctx0);
          out = \<lparr>out_Payload = payload,
                 out_Properties = msg_Properties msg,
                 out_Topic = msg_Topic msg,
                 out_RedeliveryCount = uint (msg_RedeliveryCount msg),
                 out_Msgid = (case msg_ID msg of
                                Some msgID \<Rightarrow> Sprintf_x msgID
                              | None \<Rightarrow> [])\<rparr>;
          ctx2 = (if out_Msgid out \<noteq> []
                  then NewContextWithEventId ctx1 (out_Msgid out)
                  else ctx1)
      in case rt_Handle rt ctx2 out of
           (attrs, err) \<Rightarrow>
             Inr (EvHandle ctx2 out #
                  (if err = None
                   then (if attrs '' _nack'' \<noteq> None \<and> attrs '' _nack'' = Some (IBool True)
                         then [EvNack msg]
                         else [EvAck msg])
                   else [EvNack msg])))))"


section \<open>The subscriber trigger: the consume loop\<close>

subsection \<open>Acquiring the consumer\<close>

text \<open>
  The first loop of \<open>consume\<close> runs while the handler has no consumer. Each iteration
  calls \<open>GetSubscriber\<close>, stores the consumer it returns, and on an error logs it and
  sleeps 60 seconds. \<open>GetSubscriber\<close> is a parameter: \<open>GetSubscriber n\<close> is what call
  number \<open>n\<close> returns, a consumer (possibly nil) and an error (possibly nil). The loop
  may run forever, which is the value \<open>None\<close>; when it ends it gives the consumer and
  what the loop did.
\<close>

datatype connect_event = EvErrorLog error | EvSleepSeconds nat

partial_function (option) subscribe_loop ::
  "(nat \<Rightarrow> 'c option \<times> error option) \<Rightarrow> nat \<Rightarrow> connect_event list \<Rightarrow>
   ('c \<times> connect_event list) option" where
  "subscribe_loop GetSubscriber n evs =
     (case GetSubscriber n of
        (c, err) \<Rightarrow>
          (let evs1 = (case err of
                         Some e \<Rightarrow> evs @ [EvErrorLog e, EvSleepSeconds 60]
                       | None \<Rightarrow> evs)
           in case c of
                None \<Rightarrow> subscribe_loop GetSubscriber (Suc n) evs1
              | Some con \<Rightarrow> Some (con, evs1)))"

subsection \<open>The worker and its steps\<close>

text \<open>
  A worker is a \<open>Handler\<close> whose \<open>consume\<close> loop has been launched. \<open>loc\<close> is where
  the loop stands: in the first loop (\<open>Connecting\<close>), waiting in the \<open>select\<close>
  (\<open>Selecting\<close>), blocked in \<open>wg.Wait()\<close> (\<open>Draining\<close>), returned, or gone with the
  whole process after a panic. \<open>tasks\<close> are the goroutines launched by
  \<open>go handler.handleMessage(msg)\<close>, each with the delivery number of its message and
  how far it has come: launched, body of \<open>handleMessage\<close> done (the message is
  acknowledged or not), \<open>wg.Done()\<close> of the deferred function done, and
  \<open>currentMsgCount--\<close> done. \<open>pulled\<close> counts the messages received from the channel,
  and \<open>trace\<close> lists the events of all calls of \<open>handleMessage\<close>, each with the
  delivery number of its message. \<open>closed\<close> says that the consumer was closed.
\<close>

datatype loc = Connecting | Selecting | Draining | Returned | Crashed

datatype task_state = Spawned | Handled | DoneCalled | Finished

record ('c, 'j, 'tc) worker = "'c Handler" +
  loc :: loc
  tasks :: "(nat \<times> Message \<times> task_state) list"
  pulled :: nat
  trace :: "(nat \<times> ('j, 'tc) event) list"
  closed :: bool

text \<open>
  \<open>Trigger.Start\<close> launches \<open>consume\<close> for every handler. The loop begins in its
  first loop when the handler has no consumer, and in the \<open>select\<close> otherwise.
\<close>

definition Start_worker :: "'c Handler \<Rightarrow> ('c, 'j, 'tc) worker" where
  "Start_worker h =
     \<lparr>hname = hname h, consumer = consumer h, done_ch = done_ch h,
      asyncMode = asyncMode h, maxMsgCount = maxMsgCount h,
      currentMsgCount = currentMsgCount h, wg = wg h, consumerOpts = consumerOpts h,
      loc = (if consumer h = None then Connecting else Selecting),
      tasks = [], pulled = 0, trace = [], closed = False\<rparr>"

definition Start :: "'c Handler list \<Rightarrow> ('c, 'j, 'tc) worker list" where
  "Start handlers = map Start_worker handlers"

text \<open>The first loop of a worker, run to its end.\<close>

definition connect ::
  "(nat \<Rightarrow> 'c option \<times> error option) \<Rightarrow> ('c, 'j, 'tc) worker \<Rightarrow>
   (('c, 'j, 'tc) worker \<times> connect_event list) option" where
  "connect GetSubscriber w =
     (if loc w \<noteq> Connecting then None
      else case subscribe_loop GetSubscriber 0 [] of
             None \<Rightarrow> None
           | Some (con, evs) \<Rightarrow> Some (w\<lparr>consumer := Some con, loc := Selecting\<rparr>, evs))"

text \<open>
  The steps of a worker. The goroutines of one worker interleave, and a schedule names
  the steps in the order they happen:
  \<^item> \<open>Recv msg\<close>: the \<open>select\<close> receives \<open>msg\<close> from the consumer's channel. In Async
    mode the loop adds one to the wait group and to \<open>currentMsgCount\<close>, launches the
    goroutine, and goes to \<open>wg.Wait()\<close> when the count has reached \<open>maxMsgCount\<close>;
    otherwise it calls \<open>handleMessage\<close> inline.
  \<^item> \<open>RecvClosed\<close>: the channel reports \<open>ok = false\<close>; the loop sleeps one second and
    continues.
  \<^item> \<open>RecvDone\<close>: the \<open>select\<close> receives a buffered value from \<open>done\<close> and the loop
    returns (a value handed over by a waiting sender is \<open>send_done\<close> below).
  \<^item> \<open>WaitReturns\<close>: \<open>wg.Wait()\<close> returns, which needs the counter at zero, and the
    loop resets \<open>currentMsgCount\<close>.
  \<^item> \<open>TaskRun i\<close>, \<open>TaskDone i\<close>, \<open>TaskDec i\<close>: goroutine \<open>i\<close> runs the body of
    \<open>handleMessage\<close>, then the two statements of its deferred function, in the
    source's order.
  A step that cannot happen where the worker stands is \<open>None\<close>. Each step is a run of
  statements of one goroutine, so every schedule is an execution of the program.
\<close>

datatype action =
    Recv Message
  | RecvClosed
  | RecvDone
  | WaitReturns
  | TaskRun nat
  | TaskDone nat
  | TaskDec nat

definition set_task :: "nat \<Rightarrow> task_state \<Rightarrow> ('c, 'j, 'tc) worker \<Rightarrow> ('c, 'j, 'tc) worker" where
  "set_task i st w =
     (case tasks w ! i of (n, msg, _) \<Rightarrow> w\<lparr>tasks := (tasks w)[i := (n, msg, st)]\<rparr>)"

definition task_in :: "nat \<Rightarrow> task_state \<Rightarrow> ('c, 'j, 'tc) worker \<Rightarrow> bool" where
  "task_in i st w = (i < length (tasks w) \<and> snd (snd (tasks w ! i)) = st)"

definition step ::
  "('j, 'tc) runtime \<Rightarrow> action \<Rightarrow> ('c, 'j, 'tc) worker \<Rightarrow> ('c, 'j, 'tc) worker option" where
  "step rt a w =
     (if loc w = Crashed then None
      else case a of
        Recv msg \<Rightarrow>
          (if loc w \<noteq> Selecting then None
           else if asyncMode w then
             (let w1 = w\<lparr>wg := wg w + 1,
                         currentMsgCount := currentMsgCount w + 1,
                         tasks := tasks w @ [(pulled w, msg, Spawned)],
                         pulled := Suc (pulled w)\<rparr>
              in if currentMsgCount w1 \<ge> maxMsgCount w1
                 then Some (w1\<lparr>loc := Draining\<rparr>)
                 else Some w1)
           else
             (case handleMessage rt msg of
                Inl p \<Rightarrow> Some (w\<lparr>loc := Crashed, pulled := Suc (pulled w)\<rparr>)
              | Inr evs \<Rightarrow>
                  Some (w\<lparr>trace := trace w @ map (Pair (pulled w)) evs,
                          pulled := Suc (pulled w)\<rparr>)))
      | RecvClosed \<Rightarrow> (if loc w = Selecting then Some w else None)
      | RecvDone \<Rightarrow>
          (if loc w = Selecting \<and> buf (done_ch w) \<noteq> []
           then Some (w\<lparr>done_ch := (done_ch w)\<lparr>buf := tl (buf (done_ch w))\<rparr>,
                        loc := Returned\<rparr>)
           else None)
      | WaitReturns \<Rightarrow>
          (if loc w = Draining \<and> wg w = 0
           then Some (w\<lparr>currentMsgCount := 0, loc := Selecting\<rparr>)
           else None)
      | TaskRun i \<Rightarrow>
          (if task_in i Spawned w then
             (case tasks w ! i of
                (n, msg, _) \<Rightarrow>
                  (case handleMessage rt msg of
                     Inl p \<Rightarrow> Some (w\<lparr>loc := Crashed\<rparr>)
                   | Inr evs \<Rightarrow>
                       Some (set_task i Handled (w\<lparr>trace := trace w @ map (Pair n) evs\<rparr>))))
           else None)
      | TaskDone i \<Rightarrow>
          (if task_in i Handled w
           then Some (set_task i DoneCalled (w\<lparr>wg := wg w - 1\<rparr>))
           else None)
      | TaskDec i \<Rightarrow>
          (if task_in i DoneCalled w
           then Some (set_task i Finished (w\<lparr>currentMsgCount := currentMsgCount w - 1\<rparr>))
           else None))"

fun run ::
  "('j, 'tc) runtime \<Rightarrow> action list \<Rightarrow> ('c, 'j, 'tc) worker \<Rightarrow> ('c, 'j, 'tc) worker option" where
  "run rt [] w = Some w"
| "run rt (a # as) w = (case step rt a w of None \<Rightarrow> None | Some w1 \<Rightarrow> run rt as w1)"

text \<open>
  \<open>consume\<close> as a whole: the first loop, when the worker starts in it, and then the
  steps of a schedule. \<open>None\<close> is a first loop that never ends, or a schedule with a
  step that cannot happen.
\<close>

definition consume ::
  "(nat \<Rightarrow> 'c option \<times> error option) \<Rightarrow> ('j, 'tc) runtime \<Rightarrow> action list \<Rightarrow>
   ('c, 'j, 'tc) worker \<Rightarrow> ('c, 'j, 'tc) worker option" where
  "consume GetSubscriber rt sched w =
     (if loc w = Connecting
      then (case connect GetSubscriber w of
              None \<Rightarrow> None
            | Some (w1, evs) \<Rightarrow> run rt sched w1)
      else run rt sched w)"

text \<open>
  The messages in flight: the goroutines launched whose message is not yet acknowledged
  or negatively acknowledged.
\<close>

definition in_flight :: "('c, 'j, 'tc) worker \<Rightarrow> nat" where
  "in_flight w = length (filter (\<lambda>t. snd (snd t) = Spawned) (tasks w))"


section \<open>The subscriber trigger: Stop and Pause\<close>

text \<open>
  \<open>handler.done <- true\<close>, seen from the worker. A send on a channel completes when a
  receiver is waiting (here: the loop stands in its \<open>select\<close>, takes the value and
  returns) or when the buffer has room; otherwise the sender blocks, which is \<open>None\<close>.
\<close>

definition send_done :: "('c, 'j, 'tc) worker \<Rightarrow> ('c, 'j, 'tc) worker option" where
  "send_done w =
     (if loc w = Selecting then Some (w\<lparr>loc := Returned\<rparr>)
      else if length (buf (done_ch w)) < cap (done_ch w)
      then Some (w\<lparr>done_ch := (done_ch w)\<lparr>buf := buf (done_ch w) @ [True]\<rparr>\<rparr>)
      else None)"

text \<open>
  \<open>Stop\<close> and \<open>Pause\<close> walk the handlers in order. The result is \<open>Returns\<close> with the
  workers as the call leaves them and what it did (both functions return a nil error), or
  \<open>BlocksAt i\<close>: the send to handler \<open>i\<close> cannot complete as the workers stand, and the
  call waits there until that worker's loop comes to its \<open>select\<close>.
\<close>

datatype coord_event = CoSend nat | CoClose nat

datatype 'w coord_result = Returns "'w list" "coord_event list" | BlocksAt nat

fun Stop_from ::
  "nat \<Rightarrow> ('c, 'j, 'tc) worker list \<Rightarrow> ('c, 'j, 'tc) worker coord_result" where
  "Stop_from i [] = Returns [] []"
| "Stop_from i (handler # rest) =
     (if consumer handler \<noteq> None then
        (case send_done handler of
           None \<Rightarrow> BlocksAt i
         | Some h1 \<Rightarrow>
             (case Stop_from (Suc i) rest of
                BlocksAt k \<Rightarrow> BlocksAt k
              | Returns hs evs \<Rightarrow>
                  Returns (h1\<lparr>closed := True\<rparr> # hs) (CoSend i # CoClose i # evs)))
      else
        (case Stop_from (Suc i) rest of
           BlocksAt k \<Rightarrow> BlocksAt k
         | Returns hs evs \<Rightarrow> Returns (handler # hs) evs))"

definition Stop :: "('c, 'j, 'tc) worker list \<Rightarrow> ('c, 'j, 'tc) worker coord_result" where
  "Stop handlers = Stop_from 0 handlers"

fun Pause_from ::
  "nat \<Rightarrow> ('c, 'j, 'tc) worker list \<Rightarrow> ('c, 'j, 'tc) worker coord_result" where
  "Pause_from i [] = Returns [] []"
| "Pause_from i (handler # rest) =
     (case send_done handler of
        None \<Rightarrow> BlocksAt i
      | Some h1 \<Rightarrow>
          (case Pause_from (Suc i) rest of
             BlocksAt k \<Rightarrow> BlocksAt k
           | Returns hs evs \<Rightarrow> Returns (h1 # hs) (CoSend i # evs)))"

definition Pause :: "('c, 'j, 'tc) worker list \<Rightarrow> ('c, 'j, 'tc) worker coord_result" where
  "Pause handlers = Pause_from 0 handlers"


section \<open>Notions used in the statements and proofs\<close>

text \<open>
  The parts of \<open>handleMessage\<close> by name: the decoded payload (a panic, a parse failure
  \<open>None\<close>, or the payload), the output record, the context of the handler call, and the
  acknowledgement the handler's result resolves to.
\<close>

definition decode ::
  "('j, 'tc) runtime \<Rightarrow> Message \<Rightarrow> string + 'j iface option option" where
  "decode rt msg =
     (case rt_format rt of
        None \<Rightarrow> Inr (Some (Some (IString (msg_Payload msg))))
      | Some (IString f) \<Rightarrow>
          Inr (if f = ''JSON''
               then (case rt_Unmarshal rt (msg_Payload msg) of
                       Inl err \<Rightarrow> None
                     | Inr obj \<Rightarrow> Some obj)
               else Some (Some (IString (msg_Payload msg))))
      | Some (IBool _) \<Rightarrow> Inl ''interface conversion: format is not a string''
      | Some (IObj _) \<Rightarrow> Inl ''interface conversion: format is not a string'')"

definition out_of :: "Message \<Rightarrow> 'j iface option \<Rightarrow> 'j Output" where
  "out_of msg payload =
     \<lparr>out_Payload = payload,
      out_Properties = msg_Properties msg,
      out_Topic = msg_Topic msg,
      out_RedeliveryCount = uint (msg_RedeliveryCount msg),
      out_Msgid = (case msg_ID msg of Some msgID \<Rightarrow> Sprintf_x msgID | None \<Rightarrow> [])\<rparr>"

definition ctx_of :: "('j, 'tc) runtime \<Rightarrow> Message \<Rightarrow> 'j Output \<Rightarrow> 'tc Context" where
  "ctx_of rt msg out =
     (if out_Msgid out \<noteq> []
      then NewContextWithEventId
             (if rt_trace_Enabled rt
              then (case rt_Extract rt (msg_Properties msg) of
                      Some tc \<Rightarrow> AppendTracingContext Background tc
                    | None \<Rightarrow> Background)
              else Background) (out_Msgid out)
      else (if rt_trace_Enabled rt
              then (case rt_Extract rt (msg_Properties msg) of
                      Some tc \<Rightarrow> AppendTracingContext Background tc
                    | None \<Rightarrow> Background)
              else Background))"

definition resolve ::
  "('j, 'tc) runtime \<Rightarrow> Message \<Rightarrow> 'tc Context \<Rightarrow> 'j Output \<Rightarrow> ('j, 'tc) event" where
  "resolve rt msg ctx out =
     (case rt_Handle rt ctx out of
        (attrs, err) \<Rightarrow>
          if err = None
          then (if attrs '' _nack'' = Some (IBool True) then EvNack msg else EvAck msg)
          else EvNack msg)"

text \<open>What the first loop of \<open>consume\<close> does over \<open>k\<close> failed calls from call \<open>n\<close> on.\<close>

definition failures :: "(nat \<Rightarrow> error) \<Rightarrow> nat \<Rightarrow> nat \<Rightarrow> connect_event list" where
  "failures e n k = concat (map (\<lambda>i. [EvErrorLog (e i), EvSleepSeconds 60]) [n..<n + k])"

text \<open>
  The calls of \<open>GetSubscriber\<close> from call \<open>n\<close> on return no consumer until one of them
  returns the consumer \<open>con\<close>.
\<close>

definition first_success :: "(nat \<Rightarrow> 'c option \<times> error option) \<Rightarrow> nat \<Rightarrow> 'c \<Rightarrow> bool" where
  "first_success G n con =
     (\<exists>k\<ge>n. fst (G k) = Some con \<and> (\<forall>i. n \<le> i \<and> i < k \<longrightarrow> fst (G i) = None))"

text \<open>
  In a trace, message \<open>n\<close> is resolved when it has been acknowledged or negatively
  acknowledged. A trace is in order when, wherever the handler is invoked for message
  \<open>n + 1\<close>, message \<open>n\<close> is resolved in the trace before that point.
\<close>

definition resolved :: "nat \<Rightarrow> (nat \<times> ('j, 'tc) event) list \<Rightarrow> bool" where
  "resolved n tr = (\<exists>m. (n, EvAck m) \<in> set tr \<or> (n, EvNack m) \<in> set tr)"

definition in_order :: "(nat \<times> ('j, 'tc) event) list \<Rightarrow> bool" where
  "in_order tr =
     (\<forall>xs n ctx out ys. tr = xs @ (Suc n, EvHandle ctx out) # ys \<longrightarrow> resolved n xs)"

text \<open>
  What holds of a worker in Sync mode after any number of steps: it has launched no
  goroutine, every event of its trace belongs to a message it has received, every
  message it has received is resolved unless the process has panicked, and its trace is
  in order.
\<close>

definition sync_inv :: "('c, 'j, 'tc) worker \<Rightarrow> bool" where
  "sync_inv w =
     (\<not> asyncMode w \<and> tasks w = [] \<and>
      (\<forall>e \<in> set (trace w). fst e < pulled w) \<and>
      (loc w \<noteq> Crashed \<longrightarrow> (\<forall>n < pulled w. resolved n (trace w))) \<and>
      in_order (trace w))"



text \<open>Concrete inputs for the instances below.\<close>

definition ex_msg :: "string \<Rightarrow> Message" where
  "ex_msg payload =
     \<lparr>msg_Payload = payload, msg_Properties = [], msg_Topic = ''orders'',
      msg_RedeliveryCount = 0, msg_ID = Some [1, 171]\<rparr>"

definition ex_Unmarshal :: "string \<Rightarrow> error + nat iface option" where
  "ex_Unmarshal p =
     (if p = ''true'' then Inr (Some (IBool True))
      else if p = ''null'' then Inr None
      else Inl ''invalid character'')"

definition ex_rt ::
  "nat iface option \<Rightarrow> (nat settings \<times> error option) \<Rightarrow> (nat, nat) runtime" where
  "ex_rt fmt result =
     \<lparr>rt_format = fmt, rt_Unmarshal = ex_Unmarshal, rt_trace_Enabled = False,
      rt_Extract = (\<lambda>props. None), rt_Handle = (\<lambda>ctx out. result)\<rparr>"

definition ex_settings :: "string \<Rightarrow> HandlerSettings" where
  "ex_settings mode =
     \<lparr>hs_Topic = ''orders'', hs_Subscription = ''sub'', hs_SubscriptionType = ''Shared'',
      hs_DLQTopic = [], hs_DLQMaxDeliveries = 0, hs_InitialPosition = ''Latest'',
      hs_NackRedeliveryDelay = 0, hs_ProcessingMode = mode\<rparr>"

definition ex_env :: "string \<Rightarrow> int \<Rightarrow> init_env" where
  "ex_env rtype workers =
     \<lparr>ie_engine = \<lparr>GetRunnerType = rtype, ValueRunnerTypePooled = ''POOLED'',
                   GetRunnerWorkers = workers, GetAppName = ''app'',
                   GetAppVersion = ''1.0''\<rparr>,
      ie_Hostname = Some ''host'', ie_UnixMilli = 0\<rparr>"

definition ex_host_handler :: "nat host_handler" where
  "ex_host_handler = \<lparr>hh_Name = ''h'', hh_Settings = Map.empty\<rparr>"

text \<open>
  A worker as \<open>Initialize\<close> and \<open>Start\<close> leave it (in its first loop, with no consumer),
  and the same worker once its first loop has obtained the consumer \<open>1\<close>.
\<close>

definition ex_starting :: "string \<Rightarrow> int \<Rightarrow> (nat, nat, nat) worker" where
  "ex_starting mode workers =
     Start_worker (new_Handler (ex_env ''POOLED'' workers) ex_host_handler (ex_settings mode))"

definition ex_worker :: "string \<Rightarrow> int \<Rightarrow> (nat, nat, nat) worker" where
  "ex_worker mode workers = (ex_starting mode workers)\<lparr>consumer := Some 1, loc := Selecting\<rparr>"

section \<open>The connection manager: Connect\<close>
text \<open>
  C5. \<open>Connect\<close> on a connected manager creates no client, returns a nil error and
  leaves the manager as it was, and so does a second call after it. On a manager that
  is not connected, when the creation of the client fails, \<open>Connect\<close> returns that
  error and the manager stays not connected.
\<close>
theorem Connect_idempotent:
  "(Connected p \<longrightarrow>
      Connect NewClient p = (None, p, [EvLock, EvUnlock]) \<and>
      (case Connect NewClient p of
         (e1, p1, evs1) \<Rightarrow>
           (case Connect NewClient p1 of
              (e2, p2, evs2) \<Rightarrow>
                e1 = None \<and> e2 = None \<and> p2 = p \<and> Connected p2 \<and>
                client_creations (evs1 @ evs2) = 0)))
   \<and> (\<not> Connected p \<and> NewClient (ClientOpts p) = (c, Some e) \<longrightarrow>
        (case Connect NewClient p of
           (e1, p1, evs1) \<Rightarrow> e1 = Some e \<and> \<not> Connected p1 \<and> ClientOpts p1 = ClientOpts p))"
  by (simp add: Connect_def IsConnected_def client_creations_def)

theorem Connect_idempotent_witness:
  "Connected \<lparr>Client = Some (1::nat), ClientOpts = ''pulsar://a'', Connected = True\<rparr>
   \<and> Connect (\<lambda>u. (None, Some ''unreachable''))
        \<lparr>Client = Some (1::nat), ClientOpts = ''pulsar://a'', Connected = True\<rparr>
      = (None, \<lparr>Client = Some 1, ClientOpts = ''pulsar://a'', Connected = True\<rparr>,
         [EvLock, EvUnlock])
   \<and> \<not> Connected \<lparr>Client = None :: nat option, ClientOpts = ''pulsar://a'', Connected = False\<rparr>
   \<and> fst (Connect (\<lambda>u. (None, Some ''unreachable''))
        \<lparr>Client = None :: nat option, ClientOpts = ''pulsar://a'', Connected = False\<rparr>)
      = Some ''unreachable''"
  using Connect_idempotent [of "\<lparr>Client = Some (1::nat), ClientOpts = ''pulsar://a'', Connected = True\<rparr>"
      "\<lambda>u. (None, Some ''unreachable'')" None "''unreachable''"]
    Connect_idempotent [of "\<lparr>Client = None :: nat option, ClientOpts = ''pulsar://a'', Connected = False\<rparr>"
      "\<lambda>u. (None, Some ''unreachable'')" None "''unreachable''"]
  by (simp split: prod.splits)

section \<open>The publish activity: compression\<close>
text \<open>
  C9. When the \<open>compressionType\<close> setting is a string other than \<open>LZ4\<close>, \<open>ZLIB\<close> and
  \<open>ZSTD\<close>, and the rest of the configuration is accepted (the settings map to the
  struct, the connection is a connection, the topic is a string), \<open>New\<close> returns the
  activity, and its producer options carry \<open>NoCompression\<close>.
\<close>
theorem New_unrecognized_compression:
  assumes "ct \<noteq> ''LZ4''" "ct \<noteq> ''ZLIB''" "ct \<noteq> ''ZSTD''"
    and "ctx_Settings ''compressionType'' = Some (IString ct)"
    and "MapToStruct ctx_Settings = Inr s"
    and "ToConnection (ps_Connection s) = Inr pc"
    and "ctx_Settings ''topic'' = Some (IString topic)"
    and "GetConnection pc = Some cm"
  shows "New MapToStruct ToConnection GetConnection ctx_Settings =
           Inr \<lparr>producer = None,
                producerOpts = \<lparr>po_Topic = topic, po_CompressionType = NoCompression,
                                po_Name = []\<rparr>,
                connMgr = cm, pulsarConn = pc\<rparr>"
  using assms by (simp add: New_def)

theorem New_unrecognized_compression_witness:
  "New (\<lambda>m. Inr \<lparr>ps_Connection = ''conn''\<rparr>) (\<lambda>v. Inr (3::nat)) (\<lambda>m. Some (4::nat))
      [''topic'' \<mapsto> IString ''orders'', ''compressionType'' \<mapsto> (IString ''SNAPPY'' :: nat iface)]
    = (Inr \<lparr>producer = None,
            producerOpts = \<lparr>po_Topic = ''orders'', po_CompressionType = NoCompression,
                            po_Name = []\<rparr>,
            connMgr = 4, pulsarConn = 3\<rparr> :: failure + (nat, nat, nat) Activity)"
  using New_unrecognized_compression [of "''SNAPPY''"
      "[''topic'' \<mapsto> IString ''orders'', ''compressionType'' \<mapsto> (IString ''SNAPPY'' :: nat iface)]"
      "\<lambda>m. Inr \<lparr>ps_Connection = ''conn''\<rparr>" "\<lparr>ps_Connection = ''conn''\<rparr>"
      "\<lambda>v. Inr (3::nat)" 3 "''orders''" "\<lambda>m. Some (4::nat)" 4]
  by simp

section \<open>The subscriber trigger: the maximum message count\<close>
lemma maxMsgCount_new_Handler:
  "maxMsgCount (new_Handler env handler s :: 'c Handler) = getMaxMessageCount (ie_engine env)"
  by (simp add: new_Handler_def Let_def)
lemma Initialize_maxMsgCount:
  "Initialize MapToStruct env hs0 hhs = (r, hs) \<Longrightarrow>
   \<forall>h \<in> set hs0. maxMsgCount h = getMaxMessageCount (ie_engine env) \<Longrightarrow>
   \<forall>h \<in> set hs. maxMsgCount h = getMaxMessageCount (ie_engine env)"
proof (induction hhs arbitrary: hs0)
  case Nil
  then show ?case by simp
next
  case (Cons handler rest)
  show ?case
  proof (cases "MapToStruct (hh_Settings handler)")
    case (Inl err)
    with Cons.prems show ?thesis by simp
  next
    case (Inr s)
    with Cons.prems have "Initialize MapToStruct env (hs0 @ [new_Handler env handler s]) rest = (r, hs)"
      by simp
    moreover have "\<forall>h \<in> set (hs0 @ [new_Handler env handler s]).
                     maxMsgCount h = getMaxMessageCount (ie_engine env)"
      using Cons.prems(2) by (simp add: maxMsgCount_new_Handler)
    ultimately show ?thesis by (rule Cons.IH)
  qed
qed
lemma Initialize_length:
  "Initialize MapToStruct env hs0 hhs = (None, hs) \<Longrightarrow> length hs = length hs0 + length hhs"
  by (induction hhs arbitrary: hs0) (auto split: sum.splits)
lemma maxMsgCount_set_task: "maxMsgCount (set_task i st w) = maxMsgCount w"
  by (simp add: set_task_def split: prod.splits)

lemma step_maxMsgCount:
  assumes "step rt a w = Some w'"
  shows "maxMsgCount w' = maxMsgCount w"
proof (cases a)
  case (Recv msg)
  with assms show ?thesis
    by (cases "handleMessage rt msg") (auto simp: step_def Let_def split: if_splits)
next
  case (TaskRun i)
  with assms show ?thesis
    by (cases "tasks w ! i"; cases "handleMessage rt (fst (snd (tasks w ! i)))")
       (auto simp: step_def maxMsgCount_set_task split: if_splits)
qed (use assms in \<open>auto simp: step_def maxMsgCount_set_task split: if_splits\<close>)

text \<open>
  C10. Every handler \<open>Initialize\<close> creates has, as its maximum message count, the
  engine's number of runner workers when the runner type is the pooled one, and 200 for
  any other runner type; when \<open>Initialize\<close> succeeds it has created one handler per
  handler of the host; and no step of a worker changes the maximum.
\<close>

theorem getMaxMessageCount_Initialize:
  assumes "Initialize MapToStruct env [] hhs = (r, hs)"
  shows "(\<forall>h \<in> set hs.
            maxMsgCount h =
              (if GetRunnerType (ie_engine env) = ValueRunnerTypePooled (ie_engine env)
               then GetRunnerWorkers (ie_engine env) else 200))
         \<and> (r = None \<longrightarrow> length hs = length hhs)
         \<and> (\<forall>a w w'. step rt a w = Some w' \<longrightarrow> maxMsgCount w' = maxMsgCount w)"
proof -
  have "\<forall>h \<in> set hs. maxMsgCount h = getMaxMessageCount (ie_engine env)"
    using Initialize_maxMsgCount [OF assms] by simp
  then show ?thesis
    using Initialize_length [of MapToStruct env "[]" hhs hs] assms
    by (auto simp: getMaxMessageCount_def step_maxMsgCount)
qed

theorem getMaxMessageCount_Initialize_witness:
  "Initialize (\<lambda>u. Inr (ex_settings ''Async'')) (ex_env ''DIRECT'' 5) ([] :: nat Handler list)
       [ex_host_handler, ex_host_handler]
     = (None, [new_Handler (ex_env ''DIRECT'' 5) ex_host_handler (ex_settings ''Async''),
               new_Handler (ex_env ''DIRECT'' 5) ex_host_handler (ex_settings ''Async'')])
   \<and> maxMsgCount (new_Handler (ex_env ''DIRECT'' 5) ex_host_handler (ex_settings ''Async'')
                   :: nat Handler) = 200
   \<and> Initialize (\<lambda>u. Inr (ex_settings ''Async'')) (ex_env ''POOLED'' 5) ([] :: nat Handler list)
       [ex_host_handler]
     = (None, [new_Handler (ex_env ''POOLED'' 5) ex_host_handler (ex_settings ''Async'')])
   \<and> maxMsgCount (new_Handler (ex_env ''POOLED'' 5) ex_host_handler (ex_settings ''Async'')
                   :: nat Handler) = 5"
proof -
  let ?M = "\<lambda>u :: nat settings. Inr (ex_settings ''Async'') :: error + HandlerSettings"
  let ?d = "new_Handler (ex_env ''DIRECT'' 5) ex_host_handler (ex_settings ''Async'') :: nat Handler"
  let ?p = "new_Handler (ex_env ''POOLED'' 5) ex_host_handler (ex_settings ''Async'') :: nat Handler"
  have i1: "Initialize ?M (ex_env ''DIRECT'' 5) [] [ex_host_handler, ex_host_handler]
              = (None, [?d, ?d])"
    by simp
  have i2: "Initialize ?M (ex_env ''POOLED'' 5) [] [ex_host_handler] = (None, [?p])"
    by simp
  from getMaxMessageCount_Initialize [OF i1, THEN conjunct1]
  have "\<forall>h \<in> set [?d, ?d]. maxMsgCount h = 200"
    by (simp add: ex_env_def)
  then have m1: "maxMsgCount ?d = 200" by simp
  from getMaxMessageCount_Initialize [OF i2, THEN conjunct1]
  have "\<forall>h \<in> set [?p]. maxMsgCount h = 5"
    by (simp add: ex_env_def)
  then have m2: "maxMsgCount ?p = 5" by simp
  from i1 m1 i2 m2 show ?thesis by simp
qed

section \<open>The subscriber trigger: one message\<close>
lemma handleMessage_decode:
  "handleMessage rt msg =
     (case decode rt msg of
        Inl p \<Rightarrow> Inl p
      | Inr None \<Rightarrow> Inr [EvNack msg]
      | Inr (Some payload) \<Rightarrow>
          Inr [EvHandle (ctx_of rt msg (out_of msg payload)) (out_of msg payload),
               resolve rt msg (ctx_of rt msg (out_of msg payload)) (out_of msg payload)])"
proof -
  have tail: "\<And>payload.
     (let ctx0 = Background;
          ctx1 = (if rt_trace_Enabled rt
                  then (case rt_Extract rt (msg_Properties msg) of
                          Some tc \<Rightarrow> AppendTracingContext ctx0 tc
                        | None \<Rightarrow> ctx0)
                  else ctx0);
          out = \<lparr>out_Payload = payload,
                 out_Properties = msg_Properties msg,
                 out_Topic = msg_Topic msg,
                 out_RedeliveryCount = uint (msg_RedeliveryCount msg),
                 out_Msgid = (case msg_ID msg of
                                Some msgID \<Rightarrow> Sprintf_x msgID
                              | None \<Rightarrow> [])\<rparr>;
          ctx2 = (if out_Msgid out \<noteq> []
                  then NewContextWithEventId ctx1 (out_Msgid out)
                  else ctx1)
      in case rt_Handle rt ctx2 out of
           (attrs, err) \<Rightarrow>
             Inr (EvHandle ctx2 out #
                  (if err = None
                   then (if attrs '' _nack'' \<noteq> None \<and> attrs '' _nack'' = Some (IBool True)
                         then [EvNack msg]
                         else [EvAck msg])
                   else [EvNack msg])))
     = Inr [EvHandle (ctx_of rt msg (out_of msg payload)) (out_of msg payload),
               resolve rt msg (ctx_of rt msg (out_of msg payload)) (out_of msg payload)]"
    unfolding Let_def out_of_def [symmetric]
    unfolding ctx_of_def [symmetric] resolve_def
    by (simp split: prod.splits)
  show ?thesis
    unfolding handleMessage_def tail decode_def
    by (simp split: option.splits iface.splits sum.splits)
qed
lemma handleMessage_cases:
  assumes "handleMessage rt msg = Inr evs"
  shows "evs = [EvNack msg] \<or>
   (\<exists>ctx out. evs = [EvHandle ctx out, resolve rt msg ctx out])"
  using assms unfolding handleMessage_decode
  by (auto split: sum.splits option.splits)
text \<open>
  C3. When a call of \<open>handleMessage\<close> invokes the host's handler, what follows the
  invocation is one acknowledgement: a negative one when the handler returns an error;
  when it returns no error, a negative one if the reserved attribute of the result is
  the boolean \<open>true\<close>, and a positive one otherwise.
\<close>
theorem handleMessage_resolves:
  assumes "handleMessage rt msg = Inr evs"
    and "EvHandle ctx out \<in> set evs"
    and "rt_Handle rt ctx out = (attrs, err)"
  shows "evs = [EvHandle ctx out,
                if err = None
                then (if attrs '' _nack'' = Some (IBool True) then EvNack msg else EvAck msg)
                else EvNack msg]"
proof -
  from handleMessage_cases [OF assms(1)] assms(2)
  obtain c o' where e: "evs = [EvHandle c o', resolve rt msg c o']"
    by auto
  have r: "resolve rt msg c o' \<noteq> EvHandle ctx out"
    by (simp add: resolve_def split: prod.splits)
  from e assms(2) r have "c = ctx" "o' = out" by auto
  with e assms(3) show ?thesis by (simp add: resolve_def)
qed
text \<open>
  C4. With the \<open>format\<close> setting \<open>JSON\<close> and a payload that \<open>json.Unmarshal\<close> rejects,
  \<open>handleMessage\<close> negatively acknowledges the message and does nothing else: the host's
  handler is not invoked.
\<close>
theorem handleMessage_json_parse_failure:
  assumes "rt_format rt = Some (IString ''JSON'')"
    and "rt_Unmarshal rt (msg_Payload msg) = Inl err"
  shows "handleMessage rt msg = Inr [EvNack msg]"
  using assms by (simp add: handleMessage_def)

section \<open>The concrete inputs evaluated\<close>

lemma ex_msg_sel: "msg_Payload (ex_msg p) = p" "msg_Properties (ex_msg p) = []"
  by (simp_all add: ex_msg_def)

lemma ex_out:
  "out_of (ex_msg p) (Some (IString p)) =
     \<lparr>out_Payload = Some (IString p), out_Properties = [], out_Topic = ''orders'',
      out_RedeliveryCount = 0, out_Msgid = ''01ab''\<rparr>"
  by (simp add: out_of_def ex_msg_def Sprintf_x_def hex_digit_def)

lemma ex_ctx:
  "ctx_of (ex_rt fmt res) (ex_msg p)
     \<lparr>out_Payload = pl, out_Properties = [], out_Topic = ''orders'',
      out_RedeliveryCount = 0, out_Msgid = ''01ab''\<rparr> =
     \<lparr>ctx_tracing = None, ctx_eventId = Some ''01ab''\<rparr>"
  by (simp add: ctx_of_def ex_rt_def NewContextWithEventId_def Background_def)

lemma ex_rt_sel:
  "rt_format (ex_rt fmt res) = fmt"
  "rt_Handle (ex_rt fmt res) ctx out = res"
  "rt_Unmarshal (ex_rt fmt res) = ex_Unmarshal"
  by (simp_all add: ex_rt_def)

lemma ex_handleMessage:
  "handleMessage (ex_rt None res) (ex_msg p) =
     Inr [EvHandle \<lparr>ctx_tracing = None, ctx_eventId = Some ''01ab''\<rparr>
            \<lparr>out_Payload = Some (IString p), out_Properties = [], out_Topic = ''orders'',
             out_RedeliveryCount = 0, out_Msgid = ''01ab''\<rparr>,
          if snd res = None
          then (if fst res '' _nack'' = Some (IBool True) then EvNack (ex_msg p)
                else EvAck (ex_msg p))
          else EvNack (ex_msg p)]"
proof -
  have "decode (ex_rt None res) (ex_msg p) = Inr (Some (Some (IString p)))"
    by (simp add: decode_def ex_rt_sel ex_msg_sel)
  then show ?thesis
    unfolding handleMessage_decode
    by (simp add: ex_out ex_ctx resolve_def ex_rt_sel split: prod.splits)
qed

lemma ex_worker_fields:
  "asyncMode (ex_worker mode workers) = (mode = ''Async'')"
  "maxMsgCount (ex_worker mode workers) = workers"
  "currentMsgCount (ex_worker mode workers) = 0"
  "wg (ex_worker mode workers) = 0"
  "loc (ex_worker mode workers) = Selecting"
  "tasks (ex_worker mode workers) = []"
  "trace (ex_worker mode workers) = []"
  "pulled (ex_worker mode workers) = 0"
  "consumer (ex_worker mode workers) = Some 1"
  "done_ch (ex_worker mode workers) = \<lparr>cap = 0, buf = []\<rparr>"
  by (simp_all add: ex_worker_def ex_starting_def Start_worker_def new_Handler_def Let_def
      getMaxMessageCount_def ex_env_def ex_settings_def ProcessingModeAsync_def make_chan_def)

lemma ex_starting_fields:
  "loc (ex_starting mode workers) = Connecting"
  "consumer (ex_starting mode workers) = None"
  "done_ch (ex_starting mode workers) = \<lparr>cap = 0, buf = []\<rparr>"
  by (simp_all add: ex_starting_def Start_worker_def new_Handler_def Let_def make_chan_def)

theorem handleMessage_resolves_witness:
  "handleMessage (ex_rt None (['' _nack'' \<mapsto> IBool True], None)) (ex_msg ''hello'')
     = Inr [EvHandle \<lparr>ctx_tracing = None, ctx_eventId = Some ''01ab''\<rparr>
              \<lparr>out_Payload = Some (IString ''hello''), out_Properties = [],
               out_Topic = ''orders'', out_RedeliveryCount = 0, out_Msgid = ''01ab''\<rparr>,
            EvNack (ex_msg ''hello'')]
   \<and> handleMessage (ex_rt None (Map.empty, None)) (ex_msg ''hello'')
     = Inr [EvHandle \<lparr>ctx_tracing = None, ctx_eventId = Some ''01ab''\<rparr>
              \<lparr>out_Payload = Some (IString ''hello''), out_Properties = [],
               out_Topic = ''orders'', out_RedeliveryCount = 0, out_Msgid = ''01ab''\<rparr>,
            EvAck (ex_msg ''hello'')]
   \<and> handleMessage (ex_rt None (Map.empty, Some ''failed'')) (ex_msg ''hello'')
     = Inr [EvHandle \<lparr>ctx_tracing = None, ctx_eventId = Some ''01ab''\<rparr>
              \<lparr>out_Payload = Some (IString ''hello''), out_Properties = [],
               out_Topic = ''orders'', out_RedeliveryCount = 0, out_Msgid = ''01ab''\<rparr>,
            EvNack (ex_msg ''hello'')]"
proof -
  let ?c = "\<lparr>ctx_tracing = None :: nat option, ctx_eventId = Some ''01ab''\<rparr>"
  let ?o = "\<lparr>out_Payload = Some (IString ''hello'' :: nat iface), out_Properties = [],
               out_Topic = ''orders'', out_RedeliveryCount = 0, out_Msgid = ''01ab''\<rparr>"
  have a: "\<And>res evs. handleMessage (ex_rt None res) (ex_msg ''hello'') = Inr evs \<Longrightarrow>
             EvHandle ?c ?o \<in> set evs"
    unfolding ex_handleMessage by auto
  have r: "\<And>res. rt_Handle (ex_rt None res) ?c ?o = res"
    by (simp add: ex_rt_sel)
  obtain e1 where e1:
    "handleMessage (ex_rt None (['' _nack'' \<mapsto> IBool True], None)) (ex_msg ''hello'') = Inr e1"
    unfolding ex_handleMessage by blast
  obtain e2 where e2:
    "handleMessage (ex_rt None (Map.empty, None)) (ex_msg ''hello'') = Inr e2"
    unfolding ex_handleMessage by blast
  obtain e3 where e3:
    "handleMessage (ex_rt None (Map.empty, Some ''failed'')) (ex_msg ''hello'') = Inr e3"
    unfolding ex_handleMessage by blast
  have "e1 = [EvHandle ?c ?o, EvNack (ex_msg ''hello'')]"
    using handleMessage_resolves [OF e1 a [OF e1] r] by simp
  moreover have "e2 = [EvHandle ?c ?o, EvAck (ex_msg ''hello'')]"
    using handleMessage_resolves [OF e2 a [OF e2] r] by simp
  moreover have "e3 = [EvHandle ?c ?o, EvNack (ex_msg ''hello'')]"
    using handleMessage_resolves [OF e3 a [OF e3] r] by simp
  ultimately show ?thesis
    unfolding e1 e2 e3 by simp
qed

theorem handleMessage_json_parse_failure_witness:
  "handleMessage (ex_rt (Some (IString ''JSON'')) (Map.empty, None)) (ex_msg ''not-json'')
     = Inr [EvNack (ex_msg ''not-json'')]"
  using handleMessage_json_parse_failure [of "ex_rt (Some (IString ''JSON'')) (Map.empty, None)"
      "ex_msg ''not-json''" "''invalid character''"]
  by (simp add: ex_rt_sel ex_msg_sel ex_Unmarshal_def)

section \<open>The subscriber trigger: acquiring the consumer\<close>

lemma first_success_here: "fst (G n) = Some con \<Longrightarrow> first_success G n con"
  unfolding first_success_def
proof (rule exI [of _ n], intro conjI allI impI)
  show "n \<le> n" by simp
next
  assume "fst (G n) = Some con" then show "fst (G n) = Some con" .
next
  fix i assume "n \<le> i \<and> i < n"
  then have False by linarith
  then show "fst (G i) = None" ..
qed

lemma first_success_later:
  assumes "fst (G n) = None" and "first_success G (Suc n) con"
  shows "first_success G n con"
proof -
  from assms(2) obtain k where k: "Suc n \<le> k" "fst (G k) = Some con"
      "\<forall>i. Suc n \<le> i \<and> i < k \<longrightarrow> fst (G i) = None"
    unfolding first_success_def by blast
  have "\<forall>i. n \<le> i \<and> i < k \<longrightarrow> fst (G i) = None"
  proof (intro allI impI)
    fix i assume "n \<le> i \<and> i < k"
    then consider "i = n" | "Suc n \<le> i \<and> i < k" by linarith
    then show "fst (G i) = None"
    proof cases
      case 1
      with assms(1) show ?thesis by simp
    next
      case 2
      with k(3) show ?thesis by blast
    qed
  qed
  moreover from k(1) have "n \<le> k" by simp
  ultimately have "n \<le> k \<and> fst (G k) = Some con \<and> (\<forall>i. n \<le> i \<and> i < k \<longrightarrow> fst (G i) = None)"
    using k(2) by blast
  then show ?thesis unfolding first_success_def by (rule exI [of _ k])
qed

lemma subscribe_loop_Some:
  "subscribe_loop G n evs = Some y \<Longrightarrow> first_success G n (fst y)"
proof (rule subscribe_loop.raw_induct [where P = "\<lambda>G n evs y. first_success G n (fst y)"])
  fix S :: "(nat \<Rightarrow> 'a option \<times> error option) \<Rightarrow> nat \<Rightarrow> connect_event list \<Rightarrow> ('a \<times> connect_event list) option"
  fix G n evs y
  assume IH: "\<And>G n evs y. S G n evs = Some y \<Longrightarrow> first_success G n (fst y)"
  assume body: "(case G n of
        (c, err) \<Rightarrow>
          (let evs1 = (case err of
                         Some e \<Rightarrow> evs @ [EvErrorLog e, EvSleepSeconds 60]
                       | None \<Rightarrow> evs)
           in case c of
                None \<Rightarrow> S G (Suc n) evs1
              | Some con \<Rightarrow> Some (con, evs1))) = Some y"
  obtain c err where g: "G n = (c, err)" by (cases "G n")
  show "first_success G n (fst y)"
  proof (cases c)
    case (Some con)
    from body have "y = (con, case err of Some e \<Rightarrow> evs @ [EvErrorLog e, EvSleepSeconds 60] | None \<Rightarrow> evs)"
      unfolding g Some Let_def by simp
    then have "fst y = con" by simp
    with g Some have "fst (G n) = Some (fst y)" by simp
    then show ?thesis by (rule first_success_here)
  next
    case None
    from body have "S G (Suc n) (case err of Some e \<Rightarrow> evs @ [EvErrorLog e, EvSleepSeconds 60] | None \<Rightarrow> evs) = Some y"
      unfolding g None Let_def by simp
    then have "first_success G (Suc n) (fst y)" by (rule IH)
    moreover from g None have "fst (G n) = None" by simp
    ultimately show ?thesis by (rule first_success_later [rotated])
  qed
next
  assume "subscribe_loop G n evs = Some y"
  then show "subscribe_loop G n evs = Some y" .
qed

lemma subscribe_loop_never:
  assumes "\<forall>i. fst (G i) = None"
  shows "subscribe_loop G n evs = None"
proof (cases "subscribe_loop G n evs")
  case None
  then show ?thesis .
next
  case (Some y)
  then have "first_success G n (fst y)" by (rule subscribe_loop_Some)
  then obtain k where "fst (G k) = Some (fst y)"
    unfolding first_success_def by blast
  with assms show ?thesis by simp
qed

lemma failures_0: "failures e n 0 = []"
  by (simp add: failures_def)

lemma failures_Suc:
  "failures e n (Suc k) = [EvErrorLog (e n), EvSleepSeconds 60] @ failures e (Suc n) k"
proof -
  have "[n..<n + Suc k] = n # [Suc n..<Suc n + k]"
    by (simp add: upt_conv_Cons)
  then show ?thesis by (simp add: failures_def)
qed

lemma subscribe_loop_success:
  assumes "G n = (Some con, None)"
  shows "subscribe_loop G n evs = Some (con, evs)"
  by (subst subscribe_loop.simps) (simp add: assms)

lemma subscribe_loop_failure:
  assumes "G n = (None, Some x)"
  shows "subscribe_loop G n evs =
           subscribe_loop G (Suc n) (evs @ [EvErrorLog x, EvSleepSeconds 60])"
  by (subst subscribe_loop.simps) (simp add: assms)

lemma subscribe_loop_after:
  assumes "\<forall>i<k. G (n + i) = (None, Some (e (n + i)))"
    and "G (n + k) = (Some con, None)"
  shows "subscribe_loop G n evs = Some (con, evs @ failures e n k)"
  using assms
proof (induction k arbitrary: n evs)
  case 0
  then have "G n = (Some con, None)" by simp
  then show ?case by (simp add: subscribe_loop_success failures_0)
next
  case (Suc k)
  have "0 < Suc k" by simp
  with Suc.prems(1) have "G (n + 0) = (None, Some (e (n + 0)))" by blast
  then have g: "G n = (None, Some (e n))" by simp
  have a: "\<forall>i<k. G (Suc n + i) = (None, Some (e (Suc n + i)))"
  proof (intro allI impI)
    fix i assume "i < k"
    then have "Suc i < Suc k" by simp
    with Suc.prems(1) have "G (n + Suc i) = (None, Some (e (n + Suc i)))" by blast
    then show "G (Suc n + i) = (None, Some (e (Suc n + i)))" by simp
  qed
  have b: "G (Suc n + k) = (Some con, None)"
    using Suc.prems(2) by simp
  have "subscribe_loop G n evs =
          subscribe_loop G (Suc n) (evs @ [EvErrorLog (e n), EvSleepSeconds 60])"
    using g by (rule subscribe_loop_failure)
  also have "\<dots> = Some (con, (evs @ [EvErrorLog (e n), EvSleepSeconds 60]) @ failures e (Suc n) k)"
    using a b by (rule Suc.IH)
  finally show ?case by (simp add: failures_Suc)
qed

text \<open>
  C7. While every call of \<open>GetSubscriber\<close> fails, the first loop of \<open>consume\<close> never
  ends. For every number \<open>k\<close> of failed calls followed by a successful one, the loop
  ends with the consumer of that call, having logged each failure and slept 60 seconds
  after it: no number of failures makes it give up. And when the loop ends, it ends
  with a consumer that a call has returned, no earlier call having returned one.
\<close>

theorem subscribe_loop_retries:
  "((\<forall>i. \<exists>err. G i = (None, Some err)) \<longrightarrow> subscribe_loop G 0 [] = None)
   \<and> ((\<forall>i<k. G i = (None, Some (e i))) \<and> G k = (Some con, None) \<longrightarrow>
        subscribe_loop G 0 [] = Some (con, failures e 0 k))
   \<and> (subscribe_loop G 0 [] = Some (con, evs) \<longrightarrow> first_success G 0 con)"
proof (intro conjI impI)
  assume a: "\<forall>i. \<exists>err. G i = (None, Some err)"
  have "\<forall>i. fst (G i) = None"
  proof
    fix i
    from a obtain err where "G i = (None, Some err)" by blast
    then show "fst (G i) = None" by simp
  qed
  then show "subscribe_loop G 0 [] = None" by (rule subscribe_loop_never)
next
  assume "(\<forall>i<k. G i = (None, Some (e i))) \<and> G k = (Some con, None)"
  then have "\<forall>i<k. G (0 + i) = (None, Some (e (0 + i)))" and "G (0 + k) = (Some con, None)"
    by simp_all
  then have "subscribe_loop G 0 [] = Some (con, [] @ failures e 0 k)"
    by (rule subscribe_loop_after)
  then show "subscribe_loop G 0 [] = Some (con, failures e 0 k)" by simp
next
  assume "subscribe_loop G 0 [] = Some (con, evs)"
  then have "first_success G 0 (fst (con, evs))" by (rule subscribe_loop_Some)
  then show "first_success G 0 con" by simp
qed

theorem subscribe_loop_retries_witness:
  "subscribe_loop (\<lambda>i. (None :: nat option, Some ''unreachable'')) 0 [] = None
   \<and> subscribe_loop
         (\<lambda>i. if i < 2 then (None, Some ''unreachable'') else (Some (7::nat), None)) 0 []
       = Some (7, [EvErrorLog ''unreachable'', EvSleepSeconds 60,
                   EvErrorLog ''unreachable'', EvSleepSeconds 60])"
proof -
  have f: "failures (\<lambda>i. ''unreachable'') 0 2 =
             [EvErrorLog ''unreachable'', EvSleepSeconds 60,
              EvErrorLog ''unreachable'', EvSleepSeconds 60]"
    by (simp add: failures_def upt_conv_Cons)
  show ?thesis
    using subscribe_loop_retries [where G = "\<lambda>i. (None :: nat option, Some ''unreachable'')"
        and k = 0 and e = "\<lambda>i. []" and con = 0 and evs = "[]"]
      subscribe_loop_retries [where k = 2
        and G = "\<lambda>i. if i < 2 then (None, Some ''unreachable'') else (Some (7::nat), None)"
        and e = "\<lambda>i. ''unreachable''" and con = 7 and evs = "[]"]
    by (simp add: f)
qed

section \<open>The subscriber trigger: Sync mode\<close>

lemma resolved_append: "resolved n t \<Longrightarrow> resolved n (t @ u)"
  unfolding resolved_def by auto

lemma in_order_append:
  assumes t: "in_order t"
    and u: "\<And>n ctx out. (Suc n, EvHandle ctx out) \<in> set u \<Longrightarrow> resolved n t"
  shows "in_order (t @ u)"
  unfolding in_order_def
proof (intro allI impI)
  fix xs n ctx out ys
  assume eq: "t @ u = xs @ (Suc n, EvHandle ctx out) # ys"
  then obtain us where
    "(t = xs @ us \<and> us @ u = (Suc n, EvHandle ctx out) # ys) \<or>
     (t @ us = xs \<and> u = us @ (Suc n, EvHandle ctx out) # ys)"
    unfolding append_eq_append_conv2 by blast
  then show "resolved n xs"
  proof (elim disjE conjE)
    assume a: "t = xs @ us" and b: "us @ u = (Suc n, EvHandle ctx out) # ys"
    show ?thesis
    proof (cases us)
      case Nil
      with a b have "xs = t" and "(Suc n, EvHandle ctx out) \<in> set u" by simp_all
      then show ?thesis using u by simp
    next
      case (Cons x us')
      with b have "x = (Suc n, EvHandle ctx out)" by simp
      with a Cons have "t = xs @ (Suc n, EvHandle ctx out) # us'" by simp
      with t show ?thesis unfolding in_order_def by blast
    qed
  next
    assume a: "t @ us = xs" and b: "u = us @ (Suc n, EvHandle ctx out) # ys"
    from b have "(Suc n, EvHandle ctx out) \<in> set u" by simp
    then have "resolved n t" by (rule u)
    then have "resolved n (t @ us)" by (rule resolved_append)
    with a show ?thesis by simp
  qed
qed

lemma step_sync:
  assumes "step rt a w = Some w'" and "\<not> asyncMode w" and "tasks w = []"
  shows "\<not> asyncMode w' \<and> tasks w' = [] \<and>
         ((trace w' = trace w \<and> pulled w' = pulled w \<and> loc w \<noteq> Crashed \<and> loc w' \<noteq> Crashed) \<or>
          (trace w' = trace w \<and> pulled w' = Suc (pulled w) \<and> loc w' = Crashed) \<or>
          (\<exists>msg evs. a = Recv msg \<and> loc w = Selecting \<and> loc w' = Selecting \<and>
              handleMessage rt msg = Inr evs \<and>
              trace w' = trace w @ map (Pair (pulled w)) evs \<and> pulled w' = Suc (pulled w)))"
proof (cases a)
  case (Recv msg)
  show ?thesis
  proof (cases "handleMessage rt msg")
    case (Inl p)
    with Recv assms show ?thesis by (auto simp: step_def split: if_splits)
  next
    case (Inr evs)
    with Recv assms have w': "w' = w\<lparr>trace := trace w @ map (Pair (pulled w)) evs,
                          pulled := Suc (pulled w)\<rparr>" and l: "loc w = Selecting"
      by (simp_all add: step_def split: if_splits)
    have "a = Recv msg \<and> loc w = Selecting \<and> loc w' = Selecting \<and>
              handleMessage rt msg = Inr evs \<and>
              trace w' = trace w @ map (Pair (pulled w)) evs \<and> pulled w' = Suc (pulled w)"
      using Recv Inr l by (simp add: w')
    then have "\<exists>msg evs. a = Recv msg \<and> loc w = Selecting \<and> loc w' = Selecting \<and>
              handleMessage rt msg = Inr evs \<and>
              trace w' = trace w @ map (Pair (pulled w)) evs \<and> pulled w' = Suc (pulled w)"
      by blast
    moreover have "\<not> asyncMode w'" "tasks w' = []" using assms by (simp_all add: w')
    ultimately show ?thesis by blast
  qed
next
  case RecvClosed
  with assms show ?thesis by (auto simp: step_def split: if_splits)
next
  case RecvDone
  with assms show ?thesis by (auto simp: step_def split: if_splits)
next
  case WaitReturns
  with assms show ?thesis by (auto simp: step_def split: if_splits)
next
  case (TaskRun i)
  with assms show ?thesis by (simp add: step_def task_in_def split: if_splits)
next
  case (TaskDone i)
  with assms show ?thesis by (simp add: step_def task_in_def split: if_splits)
next
  case (TaskDec i)
  with assms show ?thesis by (simp add: step_def task_in_def split: if_splits)
qed

lemma handleMessage_last:
  assumes "handleMessage rt msg = Inr evs"
  shows "EvAck msg \<in> set evs \<or> EvNack msg \<in> set evs"
proof -
  have r: "\<And>ctx out. resolve rt msg ctx out = EvAck msg \<or> resolve rt msg ctx out = EvNack msg"
    by (simp add: resolve_def split: prod.splits)
  from handleMessage_cases [OF assms] show ?thesis
  proof (elim disjE exE)
    assume "evs = [EvNack msg]" then show ?thesis by simp
  next
    fix ctx out assume "evs = [EvHandle ctx out, resolve rt msg ctx out]"
    with r [of ctx out] show ?thesis by auto
  qed
qed

lemma sync_inv_step:
  assumes s: "step rt a w = Some w'" and i: "sync_inv w"
  shows "sync_inv w'"
proof -
  from i have na: "\<not> asyncMode w" and nt: "tasks w = []"
    and tags: "\<forall>e \<in> set (trace w). fst e < pulled w"
    and res: "loc w \<noteq> Crashed \<longrightarrow> (\<forall>n < pulled w. resolved n (trace w))"
    and ord: "in_order (trace w)"
    unfolding sync_inv_def by blast+
  from step_sync [OF s na nt] have na': "\<not> asyncMode w'" and nt': "tasks w' = []"
    and c: "(trace w' = trace w \<and> pulled w' = pulled w \<and> loc w \<noteq> Crashed \<and> loc w' \<noteq> Crashed) \<or>
          (trace w' = trace w \<and> pulled w' = Suc (pulled w) \<and> loc w' = Crashed) \<or>
          (\<exists>msg evs. a = Recv msg \<and> loc w = Selecting \<and> loc w' = Selecting \<and>
              handleMessage rt msg = Inr evs \<and>
              trace w' = trace w @ map (Pair (pulled w)) evs \<and> pulled w' = Suc (pulled w))"
    by blast+
  from c show ?thesis
  proof (elim disjE exE conjE)
    assume "trace w' = trace w" "pulled w' = pulled w" "loc w \<noteq> Crashed" "loc w' \<noteq> Crashed"
    with na' nt' tags res ord show ?thesis unfolding sync_inv_def by simp
  next
    assume "trace w' = trace w" "pulled w' = Suc (pulled w)" "loc w' = Crashed"
    with na' nt' tags ord show ?thesis unfolding sync_inv_def by auto
  next
    fix msg evs
    assume l: "loc w = Selecting" and l': "loc w' = Selecting"
      and h: "handleMessage rt msg = Inr evs"
      and tr: "trace w' = trace w @ map (Pair (pulled w)) evs"
      and p: "pulled w' = Suc (pulled w)"
    from l res have res0: "\<forall>n < pulled w. resolved n (trace w)" by simp
    have t1: "\<forall>e \<in> set (trace w'). fst e < pulled w'"
      using tags unfolding tr p by auto
    have "resolved (pulled w) (map (Pair (pulled w)) evs)"
      using handleMessage_last [OF h] unfolding resolved_def by auto
    then have new: "resolved (pulled w) (trace w')"
      unfolding tr resolved_def by auto
    have t2: "\<forall>n < pulled w'. resolved n (trace w')"
    proof (intro allI impI)
      fix n assume "n < pulled w'"
      with p consider "n < pulled w" | "n = pulled w" by linarith
      then show "resolved n (trace w')"
      proof cases
        case 1
        with res0 have "resolved n (trace w)" by simp
        then show ?thesis unfolding tr by (rule resolved_append)
      next
        case 2
        with new show ?thesis by simp
      qed
    qed
    have t3: "in_order (trace w')"
      unfolding tr
    proof (rule in_order_append [OF ord])
      fix n ctx out
      assume "(Suc n, EvHandle ctx out) \<in> set (map (Pair (pulled w)) evs)"
      then have "Suc n = pulled w" by auto
      then have "n < pulled w" by simp
      with res0 show "resolved n (trace w)" by simp
    qed
    from na' nt' t1 t2 t3 show ?thesis unfolding sync_inv_def by simp
  qed
qed

lemma sync_inv_run:
  "run rt sched w = Some w' \<Longrightarrow> sync_inv w \<Longrightarrow> sync_inv w'"
proof (induction sched arbitrary: w)
  case Nil
  then show ?case by simp
next
  case (Cons a sched)
  from Cons.prems(1) obtain w1 where s: "step rt a w = Some w1" and r: "run rt sched w1 = Some w'"
    by (auto split: option.splits)
  from s Cons.prems(2) have "sync_inv w1" by (rule sync_inv_step)
  with r show ?case by (rule Cons.IH)
qed

text \<open>
  C2. A worker in Sync mode that starts with nothing received, after any schedule of
  steps: wherever its trace invokes the handler for message \<open>n + 1\<close>, the
  acknowledgement or negative acknowledgement of message \<open>n\<close> stands earlier in the
  trace; and unless the process has panicked, every message received so far is resolved,
  so that the next message is received only after that.
\<close>

theorem sync_in_order:
  assumes "\<not> asyncMode w" and "tasks w = []" and "trace w = []" and "pulled w = 0"
    and "run rt sched w = Some w'"
  shows "in_order (trace w') \<and>
         (loc w' \<noteq> Crashed \<longrightarrow> (\<forall>n < pulled w'. resolved n (trace w')))"
proof -
  have "in_order (trace w)"
    using assms(3) unfolding in_order_def by simp
  with assms(1-4) have "sync_inv w"
    unfolding sync_inv_def by simp
  with assms(5) have "sync_inv w'" by (rule sync_inv_run)
  then show ?thesis unfolding sync_inv_def by blast
qed

theorem sync_in_order_witness:
  "\<not> asyncMode (ex_worker ''Sync'' 5)
   \<and> tasks (ex_worker ''Sync'' 5) = []
   \<and> trace (ex_worker ''Sync'' 5) = []
   \<and> pulled (ex_worker ''Sync'' 5) = 0
   \<and> map_option (\<lambda>w. map fst (trace w))
        (run (ex_rt None (Map.empty, None)) [Recv (ex_msg ''a''), Recv (ex_msg ''b'')]
           (ex_worker ''Sync'' 5)) = Some [0, 0, 1, 1]
   \<and> in_order (trace (the
        (run (ex_rt None (Map.empty, None)) [Recv (ex_msg ''a''), Recv (ex_msg ''b'')]
           (ex_worker ''Sync'' 5))))"
proof -
  let ?rt = "ex_rt None (Map.empty, None) :: (nat, nat) runtime"
  let ?w = "ex_worker ''Sync'' 5"
  have h: "\<not> asyncMode ?w" "tasks ?w = []" "trace ?w = []" "pulled ?w = 0"
    by (simp_all add: ex_worker_fields)
  obtain w' where r: "run ?rt [Recv (ex_msg ''a''), Recv (ex_msg ''b'')] ?w = Some w'"
    and t: "map fst (trace w') = [0, 0, 1, 1]"
    by (simp add: step_def ex_worker_fields ex_handleMessage)
  from sync_in_order [OF h r] have "in_order (trace w')" by blast
  with h r t show ?thesis by simp
qed

section \<open>The subscriber trigger: Async mode\<close>

text \<open>
  C1 fails on the code. The deferred function of \<open>handleMessage\<close> calls \<open>wg.Done()\<close>
  before \<open>currentMsgCount--\<close>. With a maximum of one message: after the first message
  the loop waits; the goroutine calls \<open>wg.Done()\<close>; \<open>wg.Wait()\<close> returns and the loop
  resets the count to zero; then the goroutine decrements it. The loop is back in its
  \<open>select\<close> with a count of \<open>-1\<close>, receives two more messages before the count
  reaches the maximum again, and two messages are in flight.
\<close>

theorem async_window_overrun:
  "map_option (\<lambda>w. (loc w, currentMsgCount w, wg w, in_flight w))
     (run (ex_rt None (Map.empty, None))
        [Recv (ex_msg ''a''), TaskRun 0, TaskDone 0, WaitReturns, TaskDec 0]
        (ex_worker ''Async'' 1))
     = Some (Selecting, - 1, 0, 0)
   \<and> map_option (\<lambda>w. (loc w, maxMsgCount w, currentMsgCount w, wg w, in_flight w))
     (run (ex_rt None (Map.empty, None))
        [Recv (ex_msg ''a''), TaskRun 0, TaskDone 0, WaitReturns, TaskDec 0,
         Recv (ex_msg ''b''), Recv (ex_msg ''c'')]
        (ex_worker ''Async'' 1))
     = Some (Draining, 1, 1, 2, 2)"
  by (simp add: step_def task_in_def set_task_def in_flight_def ex_worker_fields
      ex_handleMessage)

section \<open>The subscriber trigger: Stop and Pause\<close>



lemma send_done_unbuffered:
  assumes "cap (done_ch h) = 0"
  shows "send_done h = (if loc h = Selecting then Some (h\<lparr>loc := Returned\<rparr>) else None)"
  using assms by (simp add: send_done_def)

lemma done_ch_new_Handler: "done_ch (new_Handler env handler s :: 'c Handler) = make_chan 0"
  by (simp add: new_Handler_def Let_def)

lemma cap_Start_worker: "cap (done_ch (Start_worker h)) = cap (done_ch h)"
  by (simp add: Start_worker_def)

lemma Pause_from_returns:
  assumes "\<forall>h \<in> set hs. cap (done_ch h) = 0"
  shows "(\<exists>hs' evs. Pause_from i hs = Returns hs' evs) \<longleftrightarrow> (\<forall>h \<in> set hs. loc h = Selecting)"
  using assms
proof (induction hs arbitrary: i)
  case Nil
  then show ?case by simp
next
  case (Cons h hs)
  from Cons.prems have c: "cap (done_ch h) = 0" and r: "\<forall>h \<in> set hs. cap (done_ch h) = 0"
    by simp_all
  note IH = Cons.IH [OF r, of "Suc i"]
  show ?case
  proof (cases "loc h = Selecting")
    case False
    with c show ?thesis by (simp add: send_done_unbuffered)
  next
    case True
    show ?thesis
    proof (cases "Pause_from (Suc i) hs")
      case (Returns hs' evs)
      with IH have "\<forall>h \<in> set hs. loc h = Selecting" by blast
      with True c Returns show ?thesis by (simp add: send_done_unbuffered)
    next
      case (BlocksAt k)
      with IH have "\<not> (\<forall>h \<in> set hs. loc h = Selecting)" by auto
      with True c BlocksAt show ?thesis by (simp add: send_done_unbuffered)
    qed
  qed
qed

lemma Stop_from_returns:
  assumes "\<forall>h \<in> set hs. cap (done_ch h) = 0"
  shows "(\<exists>hs' evs. Stop_from i hs = Returns hs' evs) \<longleftrightarrow>
         (\<forall>h \<in> set hs. consumer h \<noteq> None \<longrightarrow> loc h = Selecting)"
  using assms
proof (induction hs arbitrary: i)
  case Nil
  then show ?case by simp
next
  case (Cons h hs)
  from Cons.prems have c: "cap (done_ch h) = 0" and r: "\<forall>h \<in> set hs. cap (done_ch h) = 0"
    by simp_all
  note IH = Cons.IH [OF r, of "Suc i"]
  show ?case
  proof (cases "consumer h \<noteq> None \<and> loc h \<noteq> Selecting")
    case True
    with c show ?thesis by (auto simp: send_done_unbuffered)
  next
    case False
    show ?thesis
    proof (cases "Stop_from (Suc i) hs")
      case (Returns hs' evs)
      with IH have "\<forall>h \<in> set hs. consumer h \<noteq> None \<longrightarrow> loc h = Selecting" by blast
      with False c Returns show ?thesis by (auto simp: send_done_unbuffered)
    next
      case (BlocksAt k)
      with IH have "\<not> (\<forall>h \<in> set hs. consumer h \<noteq> None \<longrightarrow> loc h = Selecting)" by auto
      with False c BlocksAt show ?thesis by (auto simp: send_done_unbuffered)
    qed
  qed
qed

text \<open>
  C6, as the code has it. The channel \<open>done\<close> is unbuffered (\<open>Initialize\<close> makes it with
  capacity 0), and the request is a plain send on it. So \<open>Pause\<close> returns, as the workers
  stand, exactly when every worker's loop is waiting in its \<open>select\<close>, and \<open>Stop\<close>
  exactly when that holds of every worker that has a consumer; in any other case the call
  blocks at the first worker whose loop is elsewhere.
\<close>

theorem done_send_is_synchronous:
  assumes "\<forall>h \<in> set hs. cap (done_ch h) = 0"
  shows "((\<exists>hs' evs. Pause hs = Returns hs' evs) \<longleftrightarrow> (\<forall>h \<in> set hs. loc h = Selecting))
       \<and> ((\<exists>hs' evs. Stop hs = Returns hs' evs) \<longleftrightarrow>
            (\<forall>h \<in> set hs. consumer h \<noteq> None \<longrightarrow> loc h = Selecting))"
  unfolding Pause_def Stop_def
  using Pause_from_returns [OF assms, of 0] Stop_from_returns [OF assms, of 0]
  by blast

theorem done_send_is_synchronous_witness:
  "cap (done_ch (ex_worker ''Sync'' 5)) = 0
   \<and> loc (ex_worker ''Sync'' 5) = Selecting
   \<and> (\<exists>hs' evs. Pause [ex_worker ''Sync'' 5] = Returns hs' evs)
   \<and> cap (done_ch (ex_starting ''Sync'' 5)) = 0
   \<and> loc (ex_starting ''Sync'' 5) = Connecting
   \<and> \<not> (\<exists>hs' evs. Pause [ex_starting ''Sync'' 5] = Returns hs' evs)"
  using done_send_is_synchronous [of "[ex_worker ''Sync'' 5]"]
    done_send_is_synchronous [of "[ex_starting ''Sync'' 5]"]
  by (simp add: ex_worker_fields ex_starting_fields)

text \<open>
  C6 as stated fails: \<open>Pause\<close> on a worker that is still in its first loop blocks at that
  worker, and while \<open>GetSubscriber\<close> keeps failing the worker never leaves that loop.
\<close>

theorem Pause_blocks_counterexample:
  "Pause [ex_starting ''Sync'' 5] = BlocksAt 0
   \<and> connect (\<lambda>i. (None, Some ''unreachable'')) (ex_starting ''Sync'' 5) = None"
proof -
  have "subscribe_loop (\<lambda>i. (None :: nat option, Some ''unreachable'')) 0 [] = None"
    by (rule subscribe_loop_never) simp
  then show ?thesis
    by (simp add: Pause_def send_done_def connect_def ex_starting_fields)
qed






end
